theory Spec2Isabelle
  imports Main "HOL-Library.Word" "HOL-Library.Sublist"
begin

section \<open>The Android low memory killer (drivers/staging/android/lowmemorykiller.c)\<close>

text \<open>
  A shallow embedding of the driver as built with
  \<^verbatim>\<open>CONFIG_ANDROID_LOW_MEMORY_KILLER_DO_NOT_KILL_PROCESS\<close>, for a 32-bit ARM
  kernel (ILP32): \<^verbatim>\<open>int\<close>, \<^verbatim>\<open>uint\<close>, \<^verbatim>\<open>unsigned long\<close> and
  \<^verbatim>\<open>size_t\<close> are 32 bits wide. The driver itself declares the \<^verbatim>\<open>size_t\<close> array
  \<^verbatim>\<open>lowmem_minfree\<close> as a module parameter of element type \<^verbatim>\<open>uint\<close>.

  Unsigned values, and \<^verbatim>\<open>int\<close> variables that take part in unsigned or wrapping
  arithmetic (\<^verbatim>\<open>other_free\<close>, \<^verbatim>\<open>other_file\<close>, \<^verbatim>\<open>rem\<close>), are \<open>32 word\<close>s
  holding the bit pattern. \<^verbatim>\<open>int\<close> variables that are only assigned and compared
  (\<^verbatim>\<open>oom_adj\<close>, \<^verbatim>\<open>min_adj\<close>, \<^verbatim>\<open>tasksize\<close>, the sizes of the parameter
  arrays) are HOL integers; \<^verbatim>\<open>tasksize\<close> is read from its word by \<open>sint\<close>.
  A pointer to a task is an address; \<^verbatim>\<open>NULL\<close> is \<open>None\<close>.
  The \<^verbatim>\<open>lowmem_print\<close> calls only write to the kernel log and are left out.
\<close>

type_synonym ulong = "32 word"
type_synonym size_t = "32 word"
type_synonym uint = "32 word"
type_synonym task_ptr = nat

subsection \<open>Kernel data the driver reads\<close>

record mm_struct =
  rss :: ulong

record signal_struct =
  oom_adj :: int

record task_struct =
  pid :: int
  comm :: string
  mm :: "mm_struct option"
  signal :: "signal_struct option"
  tif_memdie :: bool

datatype zone_stat_item =
  NR_FREE_PAGES | NR_FILE_PAGES | NR_SHMEM
  | NR_ACTIVE_ANON | NR_ACTIVE_FILE | NR_INACTIVE_ANON | NR_INACTIVE_FILE

record shrink_control =
  gfp_mask :: uint
  nr_to_scan :: ulong

subsection \<open>The driver's own data (source lines 42--84)\<close>

datatype lowmem_process_type =
  KILLABLE_PROCESS | DO_NOT_KILL_PROCESS | DO_NOT_KILL_SYSTEM_PROCESS

record donotkill =
  enabled :: uint
  names :: "string list"
  names_count :: int

text \<open>
  The state the driver's functions run in. The first group are the driver's static
  variables. The second group is what the kernel supplies: the clock, the page counters
  behind \<^verbatim>\<open>global_page_state\<close>, the task list walked by \<^verbatim>\<open>for_each_process\<close> and
  the task structures it points to. \<open>sigkill_sent\<close> records the calls of
  \<^verbatim>\<open>send_sig(SIGKILL, p, 0)\<close> in order. \<open>HZ\<close> and \<open>OOM_ADJUST_MAX\<close> are constants of
  kernel headers that are not part of the driver; they are parameters of the model.
\<close>

record lmk_state =
  lowmem_adj :: "int list"
  lowmem_adj_size :: int
  lowmem_minfree :: "size_t list"
  lowmem_minfree_size :: int
  lowmem_deathpending :: "task_ptr option"
  lowmem_deathpending_timeout :: ulong
  donotkill_proc :: donotkill
  donotkill_sysproc :: donotkill
  jiffies :: ulong
  vm_stat :: "zone_stat_item \<Rightarrow> ulong"
  tasklist :: "task_ptr list"
  task_mem :: "task_ptr \<Rightarrow> task_struct"
  sigkill_sent :: "task_ptr list"
  HZ :: ulong
  OOM_ADJUST_MAX :: int

text \<open>\<^verbatim>\<open>ARRAY_SIZE(lowmem_adj)\<close>: both parameter arrays are declared with 6 elements.\<close>

definition ARRAY_SIZE_lowmem_adj :: int where
  "ARRAY_SIZE_lowmem_adj = 6"

text \<open>
  Modelled from the spec: the kernel accessors \<^verbatim>\<open>global_page_state\<close> and
  \<^verbatim>\<open>get_mm_rss\<close> are not part of the driver's file. The spec treats the page
  counters and a process's resident page count as data supplied from outside; both return
  an \<^verbatim>\<open>unsigned long\<close>, read here from the state and from the \<open>mm_struct\<close>.
\<close>

definition global_page_state :: "lmk_state \<Rightarrow> zone_stat_item \<Rightarrow> ulong" where
  "global_page_state s item = vm_stat s item"

definition get_mm_rss :: "mm_struct \<Rightarrow> ulong" where
  "get_mm_rss m = rss m"

text \<open>
  Modelled from the spec: the macro \<^verbatim>\<open>time_before_eq\<close> of linux/jiffies.h is not part of
  the driver's file. The spec compares timestamps for expiry; the kernel macro is
  \<^verbatim>\<open>((long)(b) - (long)(a) >= 0)\<close>, a wrapping signed difference.
\<close>

definition time_before_eq :: "ulong \<Rightarrow> ulong \<Rightarrow> bool" where
  "time_before_eq a b = (0 \<le> sint (b - a))"

subsection \<open>Substring search\<close>

text \<open>
  Modelled from the spec: \<^verbatim>\<open>strstr\<close> (lib/string.c) is not part of the driver's file.
  The spec calls the check substring containment; \<^verbatim>\<open>strstr(s1, s2)\<close> returns a pointer
  to the first occurrence of \<^verbatim>\<open>s2\<close> in \<^verbatim>\<open>s1\<close>, \<^verbatim>\<open>s1\<close> itself when \<^verbatim>\<open>s2\<close> is
  empty, and \<^verbatim>\<open>NULL\<close> when there is none. A C string is the list of its characters
  before the terminating zero; the returned pointer is the rest of \<^verbatim>\<open>s1\<close> from the
  match on.
\<close>

fun strstr :: "string \<Rightarrow> string \<Rightarrow> string option" where
  "strstr [] s2 = (if s2 = [] then Some [] else None)"
| "strstr (c # s1) s2 =
     (if s2 = [] then Some (c # s1)
      else if length s2 \<le> length (c # s1) then
        (if take (length s2) (c # s1) = s2 then Some (c # s1) else strstr s1 s2)
      else None)"

subsection \<open>The protection lists (source lines 89--119)\<close>

function donotkill_names_loop :: "string \<Rightarrow> donotkill \<Rightarrow> nat \<Rightarrow> bool" where
  "donotkill_names_loop proc_name d i =
     (if int i < names_count d then
        (if strstr (names d ! i) proc_name \<noteq> None then True
         else donotkill_names_loop proc_name d (Suc i))
      else False)"
  by pat_completeness auto
termination
  by (relation "measure (\<lambda>(proc_name, d, i). nat (names_count d) - i)") auto

declare donotkill_names_loop.simps [simp del]

definition is_in_donotkill_list :: "string \<Rightarrow> donotkill \<Rightarrow> bool" where
  "is_in_donotkill_list proc_name d =
     (if enabled d \<noteq> 0 \<and> names_count d > 0 then donotkill_names_loop proc_name d 0
      else False)"

definition is_in_donotkill_proc_list :: "lmk_state \<Rightarrow> string \<Rightarrow> bool" where
  "is_in_donotkill_proc_list s proc_name = is_in_donotkill_list proc_name (donotkill_proc s)"

definition is_in_donotkill_sysproc_list :: "lmk_state \<Rightarrow> string \<Rightarrow> bool" where
  "is_in_donotkill_sysproc_list s proc_name =
     is_in_donotkill_list proc_name (donotkill_sysproc s)"

text \<open>Source lines 235--247: the class of a process, from its \<^verbatim>\<open>comm\<close>.\<close>

definition lowmem_classify :: "lmk_state \<Rightarrow> string \<Rightarrow> lowmem_process_type" where
  "lowmem_classify s proc_name =
     (if is_in_donotkill_proc_list s proc_name then DO_NOT_KILL_PROCESS
      else if is_in_donotkill_sysproc_list s proc_name then DO_NOT_KILL_SYSTEM_PROCESS
      else KILLABLE_PROCESS)"

subsection \<open>The exit notification (source lines 144--153)\<close>

text \<open>The handler always returns \<^verbatim>\<open>NOTIFY_OK\<close>; the model returns the new state.\<close>

definition task_notify_func :: "task_ptr option \<Rightarrow> lmk_state \<Rightarrow> lmk_state" where
  "task_notify_func task s =
     (if task = lowmem_deathpending s then s\<lparr>lowmem_deathpending := None\<rparr> else s)"

subsection \<open>Threshold resolution (source lines 162, 166, 182--192)\<close>

definition lowmem_array_size :: "lmk_state \<Rightarrow> int" where
  "lowmem_array_size s =
     (let array_size = ARRAY_SIZE_lowmem_adj;
          array_size = (if lowmem_adj_size s < array_size then lowmem_adj_size s
                        else array_size);
          array_size = (if lowmem_minfree_size s < array_size then lowmem_minfree_size s
                        else array_size)
      in array_size)"

text \<open>
  The loop over the thresholds, from index \<open>i\<close> on. It returns \<^verbatim>\<open>min_adj\<close> as the loop
  leaves it, and the indices at which it read the arrays, in order. The comparison of the
  \<^verbatim>\<open>int\<close> counts with the \<^verbatim>\<open>size_t\<close> thresholds is unsigned, as C's conversions make
  it.
\<close>

function lowmem_threshold_loop ::
  "int list \<Rightarrow> size_t list \<Rightarrow> int \<Rightarrow> 32 word \<Rightarrow> 32 word \<Rightarrow> nat \<Rightarrow> int \<Rightarrow> int \<times> nat list"
where
  "lowmem_threshold_loop adj minfree array_size other_free other_file i min_adj =
     (if int i < array_size then
        (if other_free < minfree ! i \<and> other_file < minfree ! i then (adj ! i, [i])
         else
           (let (r, reads) =
              lowmem_threshold_loop adj minfree array_size other_free other_file (Suc i) min_adj
            in (r, i # reads)))
      else (min_adj, []))"
  by pat_completeness auto
termination
  by (relation "measure (\<lambda>(adj, minfree, array_size, other_free, other_file, i, min_adj).
        nat array_size - i)") auto

declare lowmem_threshold_loop.simps [simp del]

definition other_free :: "lmk_state \<Rightarrow> 32 word" where
  "other_free s = global_page_state s NR_FREE_PAGES"

definition other_file :: "lmk_state \<Rightarrow> 32 word" where
  "other_file s = global_page_state s NR_FILE_PAGES - global_page_state s NR_SHMEM"

definition lowmem_min_adj :: "lmk_state \<Rightarrow> int" where
  "lowmem_min_adj s =
     fst (lowmem_threshold_loop (lowmem_adj s) (lowmem_minfree s) (lowmem_array_size s)
            (other_free s) (other_file s) 0 (OOM_ADJUST_MAX s + 1))"

definition lowmem_threshold_reads :: "lmk_state \<Rightarrow> nat list" where
  "lowmem_threshold_reads s =
     snd (lowmem_threshold_loop (lowmem_adj s) (lowmem_minfree s) (lowmem_array_size s)
            (other_free s) (other_file s) 0 (OOM_ADJUST_MAX s + 1))"

text \<open>Source lines 197--200: the value \<^verbatim>\<open>rem\<close> starts with.\<close>

definition lowmem_rem :: "lmk_state \<Rightarrow> 32 word" where
  "lowmem_rem s =
     global_page_state s NR_ACTIVE_ANON + global_page_state s NR_ACTIVE_FILE +
     global_page_state s NR_INACTIVE_ANON + global_page_state s NR_INACTIVE_FILE"

subsection \<open>The scan over the processes (source lines 158--165, 207--263)\<close>

record selection =
  selected :: "lowmem_process_type \<Rightarrow> task_ptr option"
  selected_tasksize :: "lowmem_process_type \<Rightarrow> int"
  selected_oom_score_adj :: "lowmem_process_type \<Rightarrow> int"

definition selection_init :: "int \<Rightarrow> selection" where
  "selection_init min_adj =
     \<lparr>selected = (\<lambda>proc_type. None),
      selected_tasksize = (\<lambda>proc_type. 0),
      selected_oom_score_adj = (\<lambda>proc_type. min_adj)\<rparr>"

text \<open>One turn of the \<^verbatim>\<open>for_each_process\<close> body, for the task at \<open>p\<close>.\<close>

definition lowmem_scan_task :: "lmk_state \<Rightarrow> int \<Rightarrow> task_ptr \<Rightarrow> selection \<Rightarrow> selection" where
  "lowmem_scan_task s min_adj p sel =
     (case mm (task_mem s p) of
        None \<Rightarrow> sel
      | Some m \<Rightarrow>
        (case signal (task_mem s p) of
           None \<Rightarrow> sel
         | Some sig \<Rightarrow>
           if oom_adj sig < min_adj then sel
           else
             (let tasksize = sint (get_mm_rss m) in
              if tasksize \<le> 0 then sel
              else
                (let proc_type = lowmem_classify s (comm (task_mem s p)) in
                 if selected sel proc_type \<noteq> None \<and>
                    (oom_adj sig < selected_oom_score_adj sel proc_type \<or>
                     (oom_adj sig = selected_oom_score_adj sel proc_type \<and>
                      tasksize \<le> selected_tasksize sel proc_type))
                 then sel
                 else sel\<lparr>selected := (selected sel)(proc_type := Some p),
                          selected_tasksize := (selected_tasksize sel)(proc_type := tasksize),
                          selected_oom_score_adj :=
                            (selected_oom_score_adj sel)(proc_type := oom_adj sig)\<rparr>))))"

definition lowmem_scan :: "lmk_state \<Rightarrow> int \<Rightarrow> selection" where
  "lowmem_scan s min_adj = fold (lowmem_scan_task s min_adj) (tasklist s) (selection_init min_adj)"

subsection \<open>Choosing and killing the victim (source lines 266--283)\<close>

text \<open>
  The loop over the process types, in the order of the enumeration: it stops at the first
  type with a selected task.
\<close>

fun lowmem_kill_loop ::
  "selection \<Rightarrow> lowmem_process_type list \<Rightarrow> (lowmem_process_type \<times> task_ptr) option"
where
  "lowmem_kill_loop sel [] = None"
| "lowmem_kill_loop sel (proc_type # rest) =
     (case selected sel proc_type of
        Some p \<Rightarrow> Some (proc_type, p)
      | None \<Rightarrow> lowmem_kill_loop sel rest)"

definition managed_process_types :: "lowmem_process_type list" where
  "managed_process_types = [KILLABLE_PROCESS, DO_NOT_KILL_PROCESS, DO_NOT_KILL_SYSTEM_PROCESS]"

text \<open>Source lines 277--279: what the driver does to the task it kills.\<close>

definition lowmem_kill :: "task_ptr \<Rightarrow> lmk_state \<Rightarrow> lmk_state" where
  "lowmem_kill p s =
     s\<lparr>lowmem_deathpending_timeout := jiffies s + HZ s,
       sigkill_sent := sigkill_sent s @ [p],
       task_mem := (task_mem s)(p := (task_mem s p)\<lparr>tif_memdie := True\<rparr>)\<rparr>"

subsection \<open>The shrinker callback (source lines 155--291)\<close>

definition lowmem_death_outstanding :: "lmk_state \<Rightarrow> bool" where
  "lowmem_death_outstanding s =
     (lowmem_deathpending s \<noteq> None \<and>
      time_before_eq (jiffies s) (lowmem_deathpending_timeout s))"

definition lowmem_shrink :: "shrink_control \<Rightarrow> lmk_state \<Rightarrow> 32 word \<times> lmk_state" where
  "lowmem_shrink sc s =
     (if lowmem_death_outstanding s then (0, s)
      else
        (let min_adj = lowmem_min_adj s;
             rem = lowmem_rem s
         in if nr_to_scan sc \<le> 0 \<or> min_adj = OOM_ADJUST_MAX s + 1 then (rem, s)
            else
              (let sel = lowmem_scan s min_adj in
               case lowmem_kill_loop sel managed_process_types of
                 Some (proc_type, p) \<Rightarrow>
                   (rem - word_of_int (selected_tasksize sel proc_type), lowmem_kill p s)
               | None \<Rightarrow> (rem, s))))"

subsection \<open>The states the driver can be in\<close>

text \<open>
  The static variables as the source initialises them (lines 42--59, 83--84); what the
  kernel supplies is left open.
\<close>

definition lmk_boot :: "lmk_state \<Rightarrow> bool" where
  "lmk_boot s =
     (lowmem_adj s = [0, 1, 6, 12, 0, 0] \<and> lowmem_adj_size s = 4 \<and>
      lowmem_minfree s = [3 * 512, 2 * 1024, 4 * 1024, 16 * 1024, 0, 0] \<and>
      lowmem_minfree_size s = 4 \<and>
      lowmem_deathpending s = None \<and> lowmem_deathpending_timeout s = 0 \<and>
      enabled (donotkill_proc s) = 0 \<and> names_count (donotkill_proc s) = 0 \<and>
      enabled (donotkill_sysproc s) = 0 \<and> names_count (donotkill_sysproc s) = 0 \<and>
      sigkill_sent s = [])"

text \<open>
  What happens outside the three functions: the module parameters are written, the clock
  advances, tasks come and go, page counters change. Only the driver itself writes
  \<^verbatim>\<open>lowmem_deathpending\<close> and \<^verbatim>\<open>lowmem_deathpending_timeout\<close>, sends its signals
  and keeps the two header constants.
\<close>

definition lmk_env :: "lmk_state \<Rightarrow> lmk_state \<Rightarrow> bool" where
  "lmk_env s s' =
     (lowmem_deathpending s' = lowmem_deathpending s \<and>
      lowmem_deathpending_timeout s' = lowmem_deathpending_timeout s \<and>
      sigkill_sent s' = sigkill_sent s \<and>
      HZ s' = HZ s \<and> OOM_ADJUST_MAX s' = OOM_ADJUST_MAX s)"

inductive lmk_reachable :: "lmk_state \<Rightarrow> bool" where
  boot: "lmk_boot s \<Longrightarrow> lmk_reachable s"
| shrink: "lmk_reachable s \<Longrightarrow> lmk_reachable (snd (lowmem_shrink sc s))"
| notify: "lmk_reachable s \<Longrightarrow> lmk_reachable (task_notify_func task s)"
| env: "lmk_reachable s \<Longrightarrow> lmk_env s s' \<Longrightarrow> lmk_reachable s'"

subsection \<open>A machine to run the driver on\<close>

text \<open>
  The driver right after loading, on a machine with no process and no page in use: the
  statics as the source initialises them, \<open>HZ = 100\<close> and \<open>OOM_ADJUST_MAX = 15\<close>.
  Concrete runs below start from this state and fill in what they need.
\<close>

definition no_task :: task_struct where
  "no_task = \<lparr>pid = 0, comm = [], mm = None, signal = None, tif_memdie = False\<rparr>"

definition lmk_idle :: lmk_state where
  "lmk_idle =
     \<lparr>lowmem_adj = [0, 1, 6, 12, 0, 0], lowmem_adj_size = 4,
      lowmem_minfree = [3 * 512, 2 * 1024, 4 * 1024, 16 * 1024, 0, 0],
      lowmem_minfree_size = 4,
      lowmem_deathpending = None, lowmem_deathpending_timeout = 0,
      donotkill_proc = \<lparr>enabled = 0, names = [], names_count = 0\<rparr>,
      donotkill_sysproc = \<lparr>enabled = 0, names = [], names_count = 0\<rparr>,
      jiffies = 0, vm_stat = (\<lambda>item. 0), tasklist = [], task_mem = (\<lambda>p. no_task),
      sigkill_sent = [], HZ = 100, OOM_ADJUST_MAX = 15\<rparr>"

definition user_task :: "int \<Rightarrow> string \<Rightarrow> int \<Rightarrow> ulong \<Rightarrow> task_struct" where
  "user_task n name adj pages =
     \<lparr>pid = n, comm = name, mm = Some \<lparr>rss = pages\<rparr>, signal = Some \<lparr>oom_adj = adj\<rparr>,
      tif_memdie = False\<rparr>"

text \<open>
  Two processes under memory pressure: no free page, so the first threshold matches and
  \<^verbatim>\<open>min_adj\<close> is 0. The task list has \<^verbatim>\<open>system_server\<close> (priority 10, 5000 pages)
  before \<^verbatim>\<open>browser\<close> (priority 15, 100 pages).
\<close>

definition lmk_two_tasks :: lmk_state where
  "lmk_two_tasks =
     lmk_idle\<lparr>tasklist := [1, 2],
              task_mem := (\<lambda>p. no_task)
                (1 := user_task 101 ''system_server'' 10 5000,
                 2 := user_task 102 ''browser'' 15 100),
              vm_stat := (\<lambda>item. 0)(NR_ACTIVE_ANON := 6000)\<rparr>"

subsection \<open>Candidates of a class\<close>


section \<open>Substring search and the protection lists\<close>

lemma take_eq_prefix: "take (length s2) s1 = s2 \<longleftrightarrow> prefix s2 s1"
  by (metis append_eq_conv_conj prefix_def take_is_prefix)

text \<open>\<^verbatim>\<open>strstr(s1, s2)\<close> is not \<^verbatim>\<open>NULL\<close> exactly when \<open>s2\<close> occurs in \<open>s1\<close>.\<close>

lemma strstr_sublist: "strstr s1 s2 \<noteq> None \<longleftrightarrow> sublist s2 s1"
proof (induction s1)
  case Nil
  show ?case by simp
next
  case (Cons c s1)
  show ?case
  proof (cases "s2 = []")
    case True
    then show ?thesis by simp
  next
    case ne: False
    show ?thesis
    proof (cases "length s2 \<le> length (c # s1)")
      case True
      with ne Cons show ?thesis
        by (auto simp: sublist_Cons_right take_eq_prefix simp del: take_Suc_Cons)
    next
      case False
      then have "\<not> sublist s2 (c # s1)"
        using sublist_length_le by blast
      with False ne show ?thesis by simp
    qed
  qed
qed

lemma strstr_empty: "strstr s1 [] = Some s1"
  by (cases s1) simp_all

lemma donotkill_names_loop_iff:
  "donotkill_names_loop proc_name d i \<longleftrightarrow>
     (\<exists>j. i \<le> j \<and> int j < names_count d \<and> sublist proc_name (names d ! j))"
proof (induction proc_name d i rule: donotkill_names_loop.induct)
  case (1 proc_name d i)
  show ?case
  proof (cases "int i < names_count d")
    case False
    then show ?thesis
      by (subst donotkill_names_loop.simps) auto
  next
    case True
    show ?thesis
    proof (cases "strstr (names d ! i) proc_name \<noteq> None")
      case hit: True
      then have "sublist proc_name (names d ! i)"
        using strstr_sublist by blast
      with True hit show ?thesis
        by (subst donotkill_names_loop.simps) auto
    next
      case miss: False
      then have nsub: "\<not> sublist proc_name (names d ! i)"
        using strstr_sublist by blast
      have "donotkill_names_loop proc_name d i = donotkill_names_loop proc_name d (Suc i)"
        using True miss by (subst donotkill_names_loop.simps) simp
      also have "\<dots> \<longleftrightarrow>
          (\<exists>j. Suc i \<le> j \<and> int j < names_count d \<and> sublist proc_name (names d ! j))"
        using "1.IH" True miss by simp
      also have "\<dots> \<longleftrightarrow>
          (\<exists>j. i \<le> j \<and> int j < names_count d \<and> sublist proc_name (names d ! j))"
        using nsub by (metis Suc_leD Suc_leI le_neq_implies_less)
      finally show ?thesis .
    qed
  qed
qed

lemma is_in_donotkill_list_iff:
  "is_in_donotkill_list proc_name d \<longleftrightarrow>
     enabled d \<noteq> 0 \<and> 0 < names_count d \<and>
     (\<exists>j. int j < names_count d \<and> sublist proc_name (names d ! j))"
  by (simp add: is_in_donotkill_list_def donotkill_names_loop_iff)

lemmas classify_defs =
  lowmem_classify_def is_in_donotkill_proc_list_def is_in_donotkill_sysproc_list_def
  is_in_donotkill_list_def

text \<open>
  Claim C1, as amended. The driver calls \<^verbatim>\<open>strstr(names[i], proc_name)\<close>: it looks for
  the process name inside the configured name, not the other way round. So a process is
  \<open>DO_NOT_KILL_PROCESS\<close> exactly when the user list is enabled, has a positive count and
  the process name occurs as a substring of one of its first \<open>names_count\<close> names;
  otherwise it is \<open>DO_NOT_KILL_SYSTEM_PROCESS\<close> exactly when the same holds of the
  system list; otherwise it is \<open>KILLABLE_PROCESS\<close>.
\<close>

theorem lowmem_classify_name_in_token:
  "lowmem_classify s proc_name =
     (if enabled (donotkill_proc s) \<noteq> 0 \<and> 0 < names_count (donotkill_proc s) \<and>
         (\<exists>i. int i < names_count (donotkill_proc s) \<and>
              sublist proc_name (names (donotkill_proc s) ! i))
      then DO_NOT_KILL_PROCESS
      else if enabled (donotkill_sysproc s) \<noteq> 0 \<and> 0 < names_count (donotkill_sysproc s) \<and>
         (\<exists>i. int i < names_count (donotkill_sysproc s) \<and>
              sublist proc_name (names (donotkill_sysproc s) ! i))
      then DO_NOT_KILL_SYSTEM_PROCESS
      else KILLABLE_PROCESS)"
  unfolding lowmem_classify_def is_in_donotkill_proc_list_def is_in_donotkill_sysproc_list_def
    is_in_donotkill_list_iff
  by simp

text \<open>
  A task's \<^verbatim>\<open>comm\<close> holds at most 15 characters, so the process
  \<^verbatim>\<open>com.android.systemui\<close> runs as \<^verbatim>\<open>ndroid.systemui\<close>, which the system list
  holding the full name protects.
\<close>

theorem lowmem_classify_name_in_token_witness:
  "lowmem_classify
     (lmk_idle\<lparr>donotkill_sysproc :=
        \<lparr>enabled = 1, names = [''com.android.systemui''], names_count = 1\<rparr>\<rparr>)
     ''ndroid.systemui'' = DO_NOT_KILL_SYSTEM_PROCESS"
proof -
  have "int 0 < 1 \<and> sublist ''ndroid.systemui'' ([''com.android.systemui''] ! 0)"
    by (simp add: sublist_Cons_right)
  then have "\<exists>i. int i < 1 \<and> sublist ''ndroid.systemui'' ([''com.android.systemui''] ! i)"
    by (rule exI)
  then show ?thesis
    using lowmem_classify_name_in_token [of
        "lmk_idle\<lparr>donotkill_sysproc :=
           \<lparr>enabled = 1, names = [''com.android.systemui''], names_count = 1\<rparr>\<rparr>"
        "''ndroid.systemui''"]
    by (simp add: lmk_idle_def)
qed

text \<open>
  Claim C1 as the spec words it fails in both directions. With the user list enabled and
  holding \<^verbatim>\<open>system_server\<close>: the token occurs in the name \<^verbatim>\<open>system_server2\<close>, yet the
  process is killable; no token occurs in the name \<^verbatim>\<open>sys\<close>, yet the process is
  protected.
\<close>

theorem lowmem_classify_token_in_name_counterexample:
  "sublist ''system_server'' ''system_server2'' \<and>
   lowmem_classify
     (lmk_idle\<lparr>donotkill_proc :=
        \<lparr>enabled = 1, names = [''system_server''], names_count = 1\<rparr>\<rparr>)
     ''system_server2'' = KILLABLE_PROCESS \<and>
   \<not> sublist ''system_server'' ''sys'' \<and>
   lowmem_classify
     (lmk_idle\<lparr>donotkill_proc :=
        \<lparr>enabled = 1, names = [''system_server''], names_count = 1\<rparr>\<rparr>)
     ''sys'' = DO_NOT_KILL_PROCESS"
  by (simp add: sublist_Cons_right classify_defs lmk_idle_def donotkill_names_loop.simps)

text \<open>
  Claim C10. For a protection list that is enabled and has a positive count, the check
  succeeds for the empty process name: \<^verbatim>\<open>strstr\<close> finds the empty string in the first
  configured name. A process with the empty name is therefore \<open>DO_NOT_KILL_PROCESS\<close>
  when that list is the user list, and never \<open>KILLABLE_PROCESS\<close> when it is the system
  list.
\<close>

theorem empty_name_is_protected:
  assumes "enabled d \<noteq> 0" and "0 < names_count d"
  shows "is_in_donotkill_list [] d \<and>
         (donotkill_proc s = d \<longrightarrow> lowmem_classify s [] = DO_NOT_KILL_PROCESS) \<and>
         (donotkill_sysproc s = d \<longrightarrow> lowmem_classify s [] \<noteq> KILLABLE_PROCESS)"
proof -
  have "donotkill_names_loop [] d 0"
    using assms by (subst donotkill_names_loop.simps) (simp add: strstr_empty)
  then have "is_in_donotkill_list [] d"
    using assms by (simp add: is_in_donotkill_list_def)
  then show ?thesis
    by (simp add: lowmem_classify_def is_in_donotkill_proc_list_def
        is_in_donotkill_sysproc_list_def)
qed

theorem empty_name_is_protected_witness:
  "is_in_donotkill_list [] \<lparr>enabled = 1, names = [''system_server''], names_count = 1\<rparr> \<and>
   lowmem_classify
     (lmk_idle\<lparr>donotkill_sysproc :=
        \<lparr>enabled = 1, names = [''system_server''], names_count = 1\<rparr>\<rparr>) []
     \<noteq> KILLABLE_PROCESS"
proof -
  have en: "enabled \<lparr>enabled = 1, names = [''system_server''], names_count = 1\<rparr> \<noteq> (0 :: uint)"
    by simp
  have cnt: "0 < names_count \<lparr>enabled = (1 :: uint), names = [''system_server''], names_count = 1\<rparr>"
    by simp
  show ?thesis
    using empty_name_is_protected [OF en cnt, of
        "lmk_idle\<lparr>donotkill_sysproc :=
           \<lparr>enabled = 1, names = [''system_server''], names_count = 1\<rparr>\<rparr>"]
    by (simp add: lmk_idle_def)
qed

section \<open>Threshold resolution\<close>

lemmas run_defs =
  other_free_def other_file_def global_page_state_def lmk_idle_def lowmem_array_size_def
  ARRAY_SIZE_lowmem_adj_def

lemma threshold_loop_hit:
  assumes "int k < array_size" and "i \<le> k"
    and "ofree < minfree ! k \<and> ofile < minfree ! k"
    and "\<forall>j. i \<le> j \<and> j < k \<longrightarrow> \<not> (ofree < minfree ! j \<and> ofile < minfree ! j)"
  shows "fst (lowmem_threshold_loop adj minfree array_size ofree ofile i min_adj)
           = adj ! k"
  using assms
proof (induction adj minfree array_size ofree ofile i min_adj
    rule: lowmem_threshold_loop.induct)
  case (1 adj minfree array_size ofree ofile i min_adj)
  have lt: "int i < array_size" using "1.prems" by linarith
  show ?case
  proof (cases "i = k")
    case True
    with lt "1.prems" show ?thesis
      by (subst lowmem_threshold_loop.simps) simp
  next
    case False
    then have ik: "i < k" using "1.prems" by simp
    then have miss: "\<not> (ofree < minfree ! i \<and> ofile < minfree ! i)"
      using "1.prems" by blast
    have "fst (lowmem_threshold_loop adj minfree array_size ofree ofile (Suc i) min_adj)
            = adj ! k"
      using "1.IH" lt miss "1.prems" ik by auto
    with lt miss show ?thesis
      by (subst lowmem_threshold_loop.simps) (auto split: prod.splits)
  qed
qed

lemma threshold_loop_none:
  assumes "\<forall>j. i \<le> j \<and> int j < array_size \<longrightarrow>
             \<not> (ofree < minfree ! j \<and> ofile < minfree ! j)"
  shows "fst (lowmem_threshold_loop adj minfree array_size ofree ofile i min_adj)
           = min_adj"
  using assms
proof (induction adj minfree array_size ofree ofile i min_adj
    rule: lowmem_threshold_loop.induct)
  case (1 adj minfree array_size ofree ofile i min_adj)
  show ?case
  proof (cases "int i < array_size")
    case False
    then show ?thesis by (subst lowmem_threshold_loop.simps) simp
  next
    case True
    then have miss: "\<not> (ofree < minfree ! i \<and> ofile < minfree ! i)"
      using "1.prems" by blast
    have "fst (lowmem_threshold_loop adj minfree array_size ofree ofile (Suc i) min_adj)
            = min_adj"
      using "1.IH" True miss "1.prems" by auto
    with True miss show ?thesis
      by (subst lowmem_threshold_loop.simps) (auto split: prod.splits)
  qed
qed

lemma threshold_loop_reads:
  "j \<in> set (snd (lowmem_threshold_loop adj minfree array_size ofree ofile i min_adj))
     \<Longrightarrow> i \<le> j \<and> int j < array_size"
proof (induction adj minfree array_size ofree ofile i min_adj
    rule: lowmem_threshold_loop.induct)
  case (1 adj minfree array_size ofree ofile i min_adj)
  show ?case
  proof (cases "int i < array_size")
    case False
    with "1.prems" show ?thesis by (subst (asm) lowmem_threshold_loop.simps) simp
  next
    case True
    show ?thesis
    proof (cases "ofree < minfree ! i \<and> ofile < minfree ! i")
      case hit: True
      with True "1.prems" show ?thesis
        by (subst (asm) lowmem_threshold_loop.simps) simp
    next
      case miss: False
      from "1.prems" True miss
      have "j = i \<or> j \<in> set (snd (lowmem_threshold_loop adj minfree array_size ofree
                ofile (Suc i) min_adj))"
        by (subst (asm) lowmem_threshold_loop.simps) (auto split: prod.splits)
      then show ?thesis
        using "1.IH" True miss by auto
    qed
  qed
qed

lemma lowmem_array_size_min:
  "lowmem_array_size s = min ARRAY_SIZE_lowmem_adj (min (lowmem_adj_size s) (lowmem_minfree_size s))"
  by (simp add: lowmem_array_size_def Let_def min_def)

lemma reads_run:
  "lowmem_threshold_reads
     (lmk_idle\<lparr>lowmem_adj_size := 2, vm_stat := (\<lambda>item. 0)(NR_FREE_PAGES := 20000)\<rparr>) = [0, 1]"
  by (simp add: lowmem_threshold_reads_def run_defs lowmem_threshold_loop.simps)

text \<open>
  Claim C4. Threshold resolution returns the \<^verbatim>\<open>lowmem_adj\<close> entry of the lowest index
  below \<^verbatim>\<open>array_size\<close> whose \<^verbatim>\<open>lowmem_minfree\<close> entry strictly exceeds both the free
  count and the cache count, and the value \<^verbatim>\<open>OOM_ADJUST_MAX + 1\<close> that stands for
  "none" when no index below \<^verbatim>\<open>array_size\<close> does. The counts are read as the
  unsigned numbers the comparison with a \<^verbatim>\<open>size_t\<close> makes of them. The table need
  not be ascending for this.
\<close>

theorem lowmem_min_adj_first_match:
  "(int k < lowmem_array_size s \<and>
    unat (other_free s) < unat (lowmem_minfree s ! k) \<and>
    unat (other_file s) < unat (lowmem_minfree s ! k) \<and>
    (\<forall>j<k. \<not> (unat (other_free s) < unat (lowmem_minfree s ! j) \<and>
               unat (other_file s) < unat (lowmem_minfree s ! j)))
    \<longrightarrow> lowmem_min_adj s = lowmem_adj s ! k) \<and>
   ((\<forall>j. int j < lowmem_array_size s \<longrightarrow>
        \<not> (unat (other_free s) < unat (lowmem_minfree s ! j) \<and>
           unat (other_file s) < unat (lowmem_minfree s ! j)))
    \<longrightarrow> lowmem_min_adj s = OOM_ADJUST_MAX s + 1)"
  unfolding lowmem_min_adj_def word_less_nat_alt [symmetric]
  by (auto intro!: threshold_loop_hit threshold_loop_none)

text \<open>
  The spec's scenario, thresholds 1536, 1024, 2048, 8192 with 1000 free and 500 cache
  pages, resolves to the first entry's priority 0; with 20000 free pages on the default
  table nothing matches and the result is 16.
\<close>

theorem lowmem_min_adj_first_match_witness:
  "lowmem_min_adj
     (lmk_idle\<lparr>lowmem_minfree := [1536, 1024, 2048, 8192, 0, 0],
               vm_stat := (\<lambda>item. 0)(NR_FREE_PAGES := 1000, NR_FILE_PAGES := 500)\<rparr>) = 0 \<and>
   lowmem_min_adj (lmk_idle\<lparr>vm_stat := (\<lambda>item. 0)(NR_FREE_PAGES := 20000)\<rparr>) = 16"
proof -
  have small: "j = 0 \<or> j = 1 \<or> j = 2 \<or> j = 3" if "int j < 4" for j
    using that by linarith
  have none: "\<forall>j. int j < lowmem_array_size (lmk_idle\<lparr>vm_stat := (\<lambda>item. 0)(NR_FREE_PAGES := 20000)\<rparr>) \<longrightarrow>
        \<not> (unat (other_free (lmk_idle\<lparr>vm_stat := (\<lambda>item. 0)(NR_FREE_PAGES := 20000)\<rparr>))
             < unat (lowmem_minfree (lmk_idle\<lparr>vm_stat := (\<lambda>item. 0)(NR_FREE_PAGES := 20000)\<rparr>) ! j) \<and>
           unat (other_file (lmk_idle\<lparr>vm_stat := (\<lambda>item. 0)(NR_FREE_PAGES := 20000)\<rparr>))
             < unat (lowmem_minfree (lmk_idle\<lparr>vm_stat := (\<lambda>item. 0)(NR_FREE_PAGES := 20000)\<rparr>) ! j))"
    using small by (auto simp: run_defs nth_Cons')
  have a: "lowmem_min_adj
     (lmk_idle\<lparr>lowmem_minfree := [1536, 1024, 2048, 8192, 0, 0],
               vm_stat := (\<lambda>item. 0)(NR_FREE_PAGES := 1000, NR_FILE_PAGES := 500)\<rparr>) = 0"
    using lowmem_min_adj_first_match [of 0
        "lmk_idle\<lparr>lowmem_minfree := [1536, 1024, 2048, 8192, 0, 0],
               vm_stat := (\<lambda>item. 0)(NR_FREE_PAGES := 1000, NR_FILE_PAGES := 500)\<rparr>"]
    by (simp add: run_defs)
  have b: "lowmem_min_adj (lmk_idle\<lparr>vm_stat := (\<lambda>item. 0)(NR_FREE_PAGES := 20000)\<rparr>) = 16"
    using lowmem_min_adj_first_match [of 0 "lmk_idle\<lparr>vm_stat := (\<lambda>item. 0)(NR_FREE_PAGES := 20000)\<rparr>"]
      none
    by (simp add: lmk_idle_def)
  from a b show ?thesis by simp
qed

text \<open>
  Claim C8. \<^verbatim>\<open>array_size\<close> is the least of the arrays' capacity and the two configured
  lengths, and every index at which threshold resolution reads the arrays lies below the
  capacity and below both configured lengths.
\<close>

theorem lowmem_threshold_reads_in_both:
  "lowmem_array_size s =
     min ARRAY_SIZE_lowmem_adj (min (lowmem_adj_size s) (lowmem_minfree_size s)) \<and>
   (\<forall>i \<in> set (lowmem_threshold_reads s).
      int i < ARRAY_SIZE_lowmem_adj \<and> int i < lowmem_adj_size s \<and> int i < lowmem_minfree_size s)"
proof -
  have "int i < lowmem_array_size s" if "i \<in> set (lowmem_threshold_reads s)" for i
    using that threshold_loop_reads unfolding lowmem_threshold_reads_def by blast
  then show ?thesis
    by (auto simp: lowmem_array_size_min)
qed

theorem lowmem_threshold_reads_in_both_witness:
  "lowmem_threshold_reads
     (lmk_idle\<lparr>lowmem_adj_size := 2, vm_stat := (\<lambda>item. 0)(NR_FREE_PAGES := 20000)\<rparr>) = [0, 1] \<and>
   lowmem_array_size
     (lmk_idle\<lparr>lowmem_adj_size := 2, vm_stat := (\<lambda>item. 0)(NR_FREE_PAGES := 20000)\<rparr>) = 2 \<and>
   int 1 < lowmem_adj_size
     (lmk_idle\<lparr>lowmem_adj_size := 2, vm_stat := (\<lambda>item. 0)(NR_FREE_PAGES := 20000)\<rparr>) \<and>
   int 1 < lowmem_minfree_size
     (lmk_idle\<lparr>lowmem_adj_size := 2, vm_stat := (\<lambda>item. 0)(NR_FREE_PAGES := 20000)\<rparr>)"
  using lowmem_threshold_reads_in_both [of
      "lmk_idle\<lparr>lowmem_adj_size := 2, vm_stat := (\<lambda>item. 0)(NR_FREE_PAGES := 20000)\<rparr>"]
    reads_run
  by (simp add: lmk_idle_def ARRAY_SIZE_lowmem_adj_def)

section \<open>The pending kill\<close>

lemma lowmem_kill_deathpending [simp]:
  "lowmem_deathpending (lowmem_kill p s) = lowmem_deathpending s"
  by (simp add: lowmem_kill_def)

lemma lowmem_shrink_deathpending:
  "lowmem_deathpending (snd (lowmem_shrink sc s)) = lowmem_deathpending s"
  by (simp add: lowmem_shrink_def Let_def split: option.splits prod.splits)

lemma task_notify_func_deathpending:
  "lowmem_deathpending s = None \<Longrightarrow> lowmem_deathpending (task_notify_func task s) = None"
  by (simp add: task_notify_func_def)

lemma reachable_deathpending: "lmk_reachable s \<Longrightarrow> lowmem_deathpending s = None"
proof (induction rule: lmk_reachable.induct)
  case (boot s)
  then show ?case by (simp add: lmk_boot_def)
next
  case (shrink s sc)
  then show ?case by (simp add: lowmem_shrink_deathpending)
next
  case (notify s task)
  then show ?case by (simp add: task_notify_func_deathpending)
next
  case (env s s')
  then show ?case by (simp add: lmk_env_def)
qed

lemma lowmem_min_adj_none:
  assumes "\<forall>j. int j < lowmem_array_size s \<longrightarrow>
        \<not> (unat (other_free s) < unat (lowmem_minfree s ! j) \<and>
           unat (other_file s) < unat (lowmem_minfree s ! j))"
  shows "lowmem_min_adj s = OOM_ADJUST_MAX s + 1"
  using assms unfolding lowmem_min_adj_def word_less_nat_alt [symmetric]
  by (auto intro!: threshold_loop_none)

lemma sint_sum4:
  fixes a b c d :: "32 word"
  assumes "uint a + uint b + uint c + uint d < 2 ^ 31"
  shows "sint (a + b + c + d) = uint a + uint b + uint c + uint d"
proof -
  have nonneg: "0 \<le> uint a + uint b + uint c + uint d" by simp
  have "uint (a + b + c + d) = (uint a + uint b + uint c + uint d) mod 2 ^ 32"
    by (simp add: uint_word_ariths mod_simps)
  also have "\<dots> = uint a + uint b + uint c + uint d"
    using assms nonneg by (simp add: mod_pos_pos_trivial)
  finally have u: "uint (a + b + c + d) = uint a + uint b + uint c + uint d" .
  have "sint (a + b + c + d) = signed_take_bit 31 (uint (a + b + c + d))"
    by (simp add: sint_uint)
  also have "\<dots> = uint (a + b + c + d)"
  proof (rule signed_take_bit_int_eq_self)
    show "- (2 ^ 31) \<le> uint (a + b + c + d)"
      by (rule order_trans [of _ 0]) simp_all
    show "uint (a + b + c + d) < 2 ^ 31"
      using assms u by simp
  qed
  finally show ?thesis using u by simp
qed

lemmas shrink_run_defs =
  lowmem_shrink_def lowmem_death_outstanding_def lowmem_min_adj_def lowmem_rem_def
  lowmem_scan_def lowmem_scan_task_def selection_init_def lowmem_kill_def
  managed_process_types_def get_mm_rss_def time_before_eq_def user_task_def no_task_def
  lmk_two_tasks_def classify_defs run_defs lowmem_threshold_loop.simps
  donotkill_names_loop.simps

lemma first_kill:
  "lowmem_shrink \<lparr>gfp_mask = 0, nr_to_scan = 1\<rparr> lmk_two_tasks =
     (5900, lowmem_kill 2 lmk_two_tasks)"
  by (simp add: shrink_run_defs Let_def)

lemma second_kill:
  "lowmem_shrink \<lparr>gfp_mask = 0, nr_to_scan = 1\<rparr> (lowmem_kill 2 lmk_two_tasks) =
     (5900, lowmem_kill 2 (lowmem_kill 2 lmk_two_tasks))"
  by (simp add: shrink_run_defs Let_def)

lemma boot_two_tasks: "lmk_boot lmk_two_tasks"
  by (simp add: lmk_boot_def lmk_two_tasks_def lmk_idle_def)

lemma boot_healthy:
  "lmk_boot (lmk_two_tasks\<lparr>vm_stat :=
      (\<lambda>item. 0)(NR_FREE_PAGES := 20000, NR_ACTIVE_ANON := 6000)\<rparr>)"
  by (simp add: lmk_boot_def lmk_two_tasks_def lmk_idle_def)

text \<open>
  Claim C9. In every reachable state \<^verbatim>\<open>lowmem_deathpending\<close> is \<^verbatim>\<open>NULL\<close>: the
  notification handler only clears it, the kill path writes the timeout and not the
  pointer, and nothing else writes it. So the test for an outstanding death at the start
  of \<^verbatim>\<open>lowmem_shrink\<close> is false in every reachable state.
\<close>

theorem lowmem_deathpending_always_null:
  assumes "lmk_reachable s"
  shows "lowmem_deathpending s = None \<and> \<not> lowmem_death_outstanding s"
  using reachable_deathpending [OF assms] by (simp add: lowmem_death_outstanding_def)

theorem lowmem_deathpending_always_null_witness:
  "lowmem_deathpending (snd (lowmem_shrink \<lparr>gfp_mask = 0, nr_to_scan = 1\<rparr> lmk_two_tasks))
     = None \<and>
   \<not> lowmem_death_outstanding
       (snd (lowmem_shrink \<lparr>gfp_mask = 0, nr_to_scan = 1\<rparr> lmk_two_tasks))"
proof -
  have "lmk_reachable (snd (lowmem_shrink \<lparr>gfp_mask = 0, nr_to_scan = 1\<rparr> lmk_two_tasks))"
    by (rule lmk_reachable.shrink, rule lmk_reachable.boot, rule boot_two_tasks)
  from lowmem_deathpending_always_null [OF this] show ?thesis .
qed

text \<open>
  Claim C2 fails on the code. On the machine with two tasks, a scan kills task 2 and sets
  the timeout to now plus \<open>HZ\<close>, but leaves \<^verbatim>\<open>lowmem_deathpending\<close> at \<^verbatim>\<open>NULL\<close>.
  A second scan at the same instant, before the timeout and with no exit notification in
  between, scans again and sends \<^verbatim>\<open>SIGKILL\<close> to task 2 a second time.
\<close>

theorem second_scan_kills_again:
  "sigkill_sent (snd (lowmem_shrink \<lparr>gfp_mask = 0, nr_to_scan = 1\<rparr> lmk_two_tasks)) = [2] \<and>
   lowmem_deathpending_timeout (snd (lowmem_shrink \<lparr>gfp_mask = 0, nr_to_scan = 1\<rparr> lmk_two_tasks))
     = jiffies lmk_two_tasks + HZ lmk_two_tasks \<and>
   lowmem_deathpending (snd (lowmem_shrink \<lparr>gfp_mask = 0, nr_to_scan = 1\<rparr> lmk_two_tasks))
     = None \<and>
   time_before_eq
     (jiffies (snd (lowmem_shrink \<lparr>gfp_mask = 0, nr_to_scan = 1\<rparr> lmk_two_tasks)))
     (lowmem_deathpending_timeout
        (snd (lowmem_shrink \<lparr>gfp_mask = 0, nr_to_scan = 1\<rparr> lmk_two_tasks))) \<and>
   sigkill_sent
     (snd (lowmem_shrink \<lparr>gfp_mask = 0, nr_to_scan = 1\<rparr>
        (snd (lowmem_shrink \<lparr>gfp_mask = 0, nr_to_scan = 1\<rparr> lmk_two_tasks)))) = [2, 2]"
  by (simp add: first_kill second_kill)
    (simp add: lowmem_kill_def lmk_two_tasks_def lmk_idle_def time_before_eq_def)


text \<open>
  Claim C7. In every reachable state, a scan asked for zero pages or less, and a scan
  for which no threshold entry matches, returns the sum of the active and inactive
  anonymous and file pages and changes nothing: no task is selected and no signal is
  sent. \<^verbatim>\<open>nr_to_scan\<close> is an \<^verbatim>\<open>unsigned long\<close>, so zero or less is zero. The sum
  is the 32-bit sum the code computes; read as an \<^verbatim>\<open>int\<close> it is the sum of the four
  counts whenever that is below \<open>2 ^ 31\<close>. Reachable states are all that matters
  here: in them \<^verbatim>\<open>lowmem_deathpending\<close> is \<^verbatim>\<open>NULL\<close>, so the scan never bails
  out with 0 before the estimate is computed.
\<close>

theorem lowmem_shrink_report_only:
  assumes "lmk_reachable s"
    and "nr_to_scan sc \<le> 0 \<or>
         (\<forall>j. int j < lowmem_array_size s \<longrightarrow>
            \<not> (unat (other_free s) < unat (lowmem_minfree s ! j) \<and>
               unat (other_file s) < unat (lowmem_minfree s ! j)))"
  shows "fst (lowmem_shrink sc s) =
           global_page_state s NR_ACTIVE_ANON + global_page_state s NR_ACTIVE_FILE +
           global_page_state s NR_INACTIVE_ANON + global_page_state s NR_INACTIVE_FILE \<and>
         snd (lowmem_shrink sc s) = s \<and>
         (uint (global_page_state s NR_ACTIVE_ANON) + uint (global_page_state s NR_ACTIVE_FILE) +
          uint (global_page_state s NR_INACTIVE_ANON) + uint (global_page_state s NR_INACTIVE_FILE)
            < 2 ^ 31 \<longrightarrow>
          sint (fst (lowmem_shrink sc s)) =
            uint (global_page_state s NR_ACTIVE_ANON) + uint (global_page_state s NR_ACTIVE_FILE) +
            uint (global_page_state s NR_INACTIVE_ANON) +
            uint (global_page_state s NR_INACTIVE_FILE))"
proof -
  have "\<not> lowmem_death_outstanding s"
    using reachable_deathpending [OF assms(1)] by (simp add: lowmem_death_outstanding_def)
  moreover have "nr_to_scan sc \<le> 0 \<or> lowmem_min_adj s = OOM_ADJUST_MAX s + 1"
    using assms(2) lowmem_min_adj_none by blast
  ultimately have "lowmem_shrink sc s = (lowmem_rem s, s)"
    by (auto simp: lowmem_shrink_def Let_def)
  then show ?thesis
    using sint_sum4 by (simp add: lowmem_rem_def)
qed

theorem lowmem_shrink_report_only_witness:
  "lowmem_shrink \<lparr>gfp_mask = 0, nr_to_scan = 0\<rparr> lmk_two_tasks = (6000, lmk_two_tasks) \<and>
   sint (fst (lowmem_shrink \<lparr>gfp_mask = 0, nr_to_scan = 0\<rparr> lmk_two_tasks)) = 6000 \<and>
   lowmem_shrink \<lparr>gfp_mask = 0, nr_to_scan = 1\<rparr>
     (lmk_two_tasks\<lparr>vm_stat := (\<lambda>item. 0)(NR_FREE_PAGES := 20000, NR_ACTIVE_ANON := 6000)\<rparr>)
   = (6000,
      lmk_two_tasks\<lparr>vm_stat := (\<lambda>item. 0)(NR_FREE_PAGES := 20000, NR_ACTIVE_ANON := 6000)\<rparr>)"
proof -
  let ?h = "lmk_two_tasks\<lparr>vm_stat := (\<lambda>item. 0)(NR_FREE_PAGES := 20000, NR_ACTIVE_ANON := 6000)\<rparr>"
  have small: "j = 0 \<or> j = 1 \<or> j = 2 \<or> j = 3" if "int j < 4" for j
    using that by linarith
  have none: "\<forall>j. int j < lowmem_array_size ?h \<longrightarrow>
        \<not> (unat (other_free ?h) < unat (lowmem_minfree ?h ! j) \<and>
           unat (other_file ?h) < unat (lowmem_minfree ?h ! j))"
    using small by (auto simp: run_defs lmk_two_tasks_def nth_Cons')
  have r0: "lmk_reachable lmk_two_tasks"
    by (rule lmk_reachable.boot, rule boot_two_tasks)
  have r1: "lmk_reachable ?h"
    by (rule lmk_reachable.boot, rule boot_healthy)
  have z: "nr_to_scan \<lparr>gfp_mask = 0, nr_to_scan = 0\<rparr> \<le> (0 :: ulong)"
    by simp
  have a: "lowmem_shrink \<lparr>gfp_mask = 0, nr_to_scan = 0\<rparr> lmk_two_tasks = (6000, lmk_two_tasks) \<and>
      sint (fst (lowmem_shrink \<lparr>gfp_mask = 0, nr_to_scan = 0\<rparr> lmk_two_tasks)) = 6000"
    using lowmem_shrink_report_only [OF r0 disjI1, OF z]
    by (simp add: prod_eq_iff global_page_state_def lmk_two_tasks_def lmk_idle_def)
  have b: "lowmem_shrink \<lparr>gfp_mask = 0, nr_to_scan = 1\<rparr> ?h = (6000, ?h)"
    using lowmem_shrink_report_only [OF r1 disjI2, OF none, of "\<lparr>gfp_mask = 0, nr_to_scan = 1\<rparr>"]
    by (simp add: prod_eq_iff global_page_state_def lmk_two_tasks_def lmk_idle_def)
  from a b show ?thesis by simp
qed

section \<open>The scan and the choice of the victim\<close>





lemma kill_loop_cases:
  "lowmem_kill_loop sel managed_process_types =
     (case selected sel KILLABLE_PROCESS of
        Some p \<Rightarrow> Some (KILLABLE_PROCESS, p)
      | None \<Rightarrow>
        (case selected sel DO_NOT_KILL_PROCESS of
           Some p \<Rightarrow> Some (DO_NOT_KILL_PROCESS, p)
         | None \<Rightarrow>
           (case selected sel DO_NOT_KILL_SYSTEM_PROCESS of
              Some p \<Rightarrow> Some (DO_NOT_KILL_SYSTEM_PROCESS, p)
            | None \<Rightarrow> None)))"
  by (simp add: managed_process_types_def split: option.splits)

lemma kill_loop_none:
  "lowmem_kill_loop sel managed_process_types = None \<longleftrightarrow>
     (\<forall>proc_type. selected sel proc_type = None)"
proof
  assume "lowmem_kill_loop sel managed_process_types = None"
  then have "selected sel KILLABLE_PROCESS = None \<and> selected sel DO_NOT_KILL_PROCESS = None \<and>
      selected sel DO_NOT_KILL_SYSTEM_PROCESS = None"
    by (simp add: kill_loop_cases split: option.splits)
  then show "\<forall>proc_type. selected sel proc_type = None"
    by (metis lowmem_process_type.exhaust)
next
  assume "\<forall>proc_type. selected sel proc_type = None"
  then show "lowmem_kill_loop sel managed_process_types = None"
    by (simp add: kill_loop_cases)
qed



text \<open>
  Claim C5. The loop over the classes takes the selected task of the first class that has
  one, in the order killable, user-protected, system-protected, and finds none only when
  no class has one. A scan that gets as far as the process list kills exactly that task
  and subtracts its size from the estimate; when there is none it changes nothing. In
  particular a selected killable task is killed whatever the protected classes hold.
\<close>

theorem lowmem_kill_order:
  "lowmem_kill_loop sel managed_process_types =
     (case selected sel KILLABLE_PROCESS of
        Some p \<Rightarrow> Some (KILLABLE_PROCESS, p)
      | None \<Rightarrow>
        (case selected sel DO_NOT_KILL_PROCESS of
           Some p \<Rightarrow> Some (DO_NOT_KILL_PROCESS, p)
         | None \<Rightarrow>
           (case selected sel DO_NOT_KILL_SYSTEM_PROCESS of
              Some p \<Rightarrow> Some (DO_NOT_KILL_SYSTEM_PROCESS, p)
            | None \<Rightarrow> None))) \<and>
   (lowmem_kill_loop sel managed_process_types = None \<longleftrightarrow>
      (\<forall>proc_type. selected sel proc_type = None)) \<and>
   (\<not> lowmem_death_outstanding s \<and> 0 < nr_to_scan sc \<and>
    lowmem_min_adj s \<noteq> OOM_ADJUST_MAX s + 1 \<and> sel = lowmem_scan s (lowmem_min_adj s) \<longrightarrow>
      lowmem_shrink sc s =
        (case lowmem_kill_loop sel managed_process_types of
           Some (proc_type, p) \<Rightarrow>
             (lowmem_rem s - word_of_int (selected_tasksize sel proc_type), lowmem_kill p s)
         | None \<Rightarrow> (lowmem_rem s, s))) \<and>
   sigkill_sent (lowmem_kill p s) = sigkill_sent s @ [p]"
proof -
  have "lowmem_shrink sc s =
        (case lowmem_kill_loop sel managed_process_types of
           Some (proc_type, p) \<Rightarrow>
             (lowmem_rem s - word_of_int (selected_tasksize sel proc_type), lowmem_kill p s)
         | None \<Rightarrow> (lowmem_rem s, s))"
    if "\<not> lowmem_death_outstanding s" "0 < nr_to_scan sc"
      "lowmem_min_adj s \<noteq> OOM_ADJUST_MAX s + 1" "sel = lowmem_scan s (lowmem_min_adj s)"
    using that by (simp add: lowmem_shrink_def Let_def word_gt_0 split: option.splits)
  then show ?thesis
    using kill_loop_cases [of sel] kill_loop_none [of sel]
    by (simp add: lowmem_kill_def)
qed

text \<open>
  The spec's scenario: \<^verbatim>\<open>system_server\<close> (priority 10) is on the system list and is
  selected for its class, \<^verbatim>\<open>browser\<close> (priority 15) is killable; the scan kills
  \<^verbatim>\<open>browser\<close>.
\<close>

theorem lowmem_kill_order_witness:
  "lowmem_shrink \<lparr>gfp_mask = 0, nr_to_scan = 1\<rparr>
     (lmk_two_tasks\<lparr>donotkill_sysproc :=
        \<lparr>enabled = 1, names = [''system_server''], names_count = 1\<rparr>\<rparr>)
   = (5900,
      lowmem_kill 2
        (lmk_two_tasks\<lparr>donotkill_sysproc :=
           \<lparr>enabled = 1, names = [''system_server''], names_count = 1\<rparr>\<rparr>)) \<and>
   selected
     (lowmem_scan
        (lmk_two_tasks\<lparr>donotkill_sysproc :=
           \<lparr>enabled = 1, names = [''system_server''], names_count = 1\<rparr>\<rparr>) 0)
     DO_NOT_KILL_SYSTEM_PROCESS = Some 1"
proof -
  let ?s = "lmk_two_tasks\<lparr>donotkill_sysproc :=
        \<lparr>enabled = 1, names = [''system_server''], names_count = 1\<rparr>\<rparr>"
  let ?sc = "\<lparr>gfp_mask = 0, nr_to_scan = 1 :: ulong\<rparr>"
  have guard: "\<not> lowmem_death_outstanding ?s"
    by (simp add: lowmem_death_outstanding_def lmk_two_tasks_def lmk_idle_def)
  have n: "0 < nr_to_scan ?sc" by simp
  have m: "lowmem_min_adj ?s = 0"
    by (simp add: lowmem_min_adj_def run_defs lmk_two_tasks_def lowmem_threshold_loop.simps)
  have m': "lowmem_min_adj ?s \<noteq> OOM_ADJUST_MAX ?s + 1"
    unfolding m by (simp add: lmk_two_tasks_def lmk_idle_def)
  have k: "selected (lowmem_scan ?s 0) KILLABLE_PROCESS = Some 2"
    and ksize: "selected_tasksize (lowmem_scan ?s 0) KILLABLE_PROCESS = 100"
    and p: "selected (lowmem_scan ?s 0) DO_NOT_KILL_SYSTEM_PROCESS = Some 1"
    by (simp_all add: lowmem_scan_def lowmem_scan_task_def selection_init_def Let_def
        lmk_two_tasks_def lmk_idle_def user_task_def get_mm_rss_def classify_defs
        donotkill_names_loop.simps)
  have r: "lowmem_rem ?s = 6000"
    by (simp add: lowmem_rem_def global_page_state_def lmk_two_tasks_def lmk_idle_def)
  show ?thesis
    using lowmem_kill_order [of "lowmem_scan ?s 0" ?s ?sc] guard n m m' k ksize p r
    by simp
qed

end
